theory Spec2Isabelle
  imports
    Complex_Main
    "HOL-Library.Char_ord"
    "HOL-Library.List_Lexorder"
    "HOL-Library.Sublist"
begin

section \<open>Data model (types.ts)\<close>

text \<open>
  A JavaScript \<^verbatim>\<open>number\<close>. The component stores numbers and hands them on; it never
  computes with them, so only a value that can be told from the others is needed:
  a real for the finite doubles and \<open>NaN\<close>. The infinities and the sign of zero are
  left out.
\<close>

datatype number = Num real | NaN

text \<open>\<^verbatim>\<open>enum RoundingMode { VARIANT_A = 'Standard (Kaufmaennisch)', VARIANT_B = 'Aufrunden (Always Up)' }\<close>\<close>

datatype RoundingMode = VARIANT_A | VARIANT_B

text \<open>The union type \<^verbatim>\<open>'Cu' | 'Tombak' | 'Messing' | 'Unklar'\<close> of the field \<open>material\<close>.\<close>

datatype Material = Cu | Tombak | Messing | Unklar

text \<open>
  \<^verbatim>\<open>interface ProductionRecord\<close>. A JavaScript string is a sequence of UTF-16 code
  units; \<open>string\<close> is a list of \<open>char\<close>, one per code unit. The string operations
  used below (\<^verbatim>\<open>split\<close>, \<^verbatim>\<open>padStart\<close>, \<^verbatim>\<open>length\<close>, comparison) look at code units
  only through equality and order, so nothing depends on the size of \<open>char\<close>.
  The field \<^verbatim>\<open>id\<close> is \<open>id_field\<close> here (\<open>id\<close> is the identity function of HOL).
\<close>

record ProductionRecord =
  id_field :: string
  datum :: string
  ofen :: string
  temperatur :: string
  legierung :: string
  gewichtKg :: string
  bemerkungen :: string
  temp_n :: number
  alloy_n :: number
  weight_n :: number
  tonnes :: number
  tonnesRounded :: number
  material :: Material
  tempBucket :: string

text \<open>\<^verbatim>\<open>interface AppSettings\<close>\<close>

record AppSettings =
  roundingMode :: RoundingMode
  tombakThreshold :: number
  tempBuckets :: "number list"
  tempTolerance :: number

section \<open>String operations of the JavaScript library\<close>

text \<open>
  \<^verbatim>\<open>s.split(sep)\<close> for a separator of one code unit: the pieces of \<open>s\<close> between the
  occurrences of \<open>sep\<close>, from left to right. There is one piece more than there are
  separators; the empty string gives one empty piece. \<open>cur\<close> is the piece being read.
\<close>

fun split_from :: "char \<Rightarrow> string \<Rightarrow> string \<Rightarrow> string list" where
  "split_from sep cur [] = [cur]"
| "split_from sep cur (c # cs) =
     (if c = sep then cur # split_from sep [] cs else split_from sep (cur @ [c]) cs)"

definition split :: "char \<Rightarrow> string \<Rightarrow> string list" where
  "split sep s = split_from sep [] s"

text \<open>
  \<^verbatim>\<open>s.padStart(n, c)\<close> for a pad string of one code unit: \<open>s\<close> itself when it has
  \<open>n\<close> code units or more (the subtraction on \<open>nat\<close> is then 0), and otherwise \<open>s\<close> after
  as many \<open>c\<close> as bring it to length \<open>n\<close>.
\<close>

definition padStart :: "nat \<Rightarrow> char \<Rightarrow> string \<Rightarrow> string" where
  "padStart n c s = replicate (n - length s) c @ s"

text \<open>
  \<^verbatim>\<open>Set.prototype.add\<close> on a \<^verbatim>\<open>Set<string>\<close>, kept as the list of its members in
  insertion order (the order \<^verbatim>\<open>Array.from\<close> reads them in): a member is not added
  again.
\<close>

definition Set_add :: "string \<Rightarrow> string list \<Rightarrow> string list" where
  "Set_add k months = (if k \<in> set months then months else months @ [k])"

section \<open>Month keys, available months and the month filter (App.tsx, lines 39 to 68)\<close>

text \<open>
  The callback of \<^verbatim>\<open>allProcessedData.forEach\<close> in \<open>availableMonths\<close> (lines 42 to 51):
  \<^verbatim>\<open>
      const parts = rec.datum.split('.');
      if (parts.length === 3) {
        const month = parts[1].padStart(2, '0');
        const year = parts[2].length === 2 ? `20${parts[2]}` : parts[2];
        months.add(`${year}-${month}`);
      }
  \<close>
  The indices 1 and 2 are read only where \<open>parts\<close> has three elements.
\<close>

definition availableMonths_add :: "string list \<Rightarrow> ProductionRecord \<Rightarrow> string list" where
  "availableMonths_add months rec =
     (let parts = split CHR ''.'' (datum rec) in
      if length parts = 3 then
        (let month = padStart 2 CHR ''0'' (parts ! 1);
             year = (if length (parts ! 2) = 2 then ''20'' @ parts ! 2 else parts ! 2)
         in Set_add (year @ ''-'' @ month) months)
      else months)"

text \<open>
  \<open>availableMonths\<close> (lines 40 to 53): the set filled by the callback over the
  processed records, then \<^verbatim>\<open>Array.from(months).sort().reverse()\<close>. The default
  \<^verbatim>\<open>sort\<close> orders strings by their code units, a proper prefix first: the
  lexicographic order of \<open>string\<close>.
\<close>

definition availableMonths :: "ProductionRecord list \<Rightarrow> string list" where
  "availableMonths allProcessedData = rev (sort (foldl availableMonths_add [] allProcessedData))"

text \<open>
  The callback of \<^verbatim>\<open>allProcessedData.filter\<close> in \<open>filteredData\<close> (lines 58 to 67):
  \<^verbatim>\<open>
      const parts = rec.datum.split('.');
      if (parts.length === 3) {
        const month = parts[1].padStart(2, '0');
        const year = parts[2].length === 2 ? `20${parts[2]}` : parts[2];
        const key = `${year}-${month}`;
        return selectedMonths.includes(key);
      }
      return false;
  \<close>
\<close>

definition filteredData_keep :: "string list \<Rightarrow> ProductionRecord \<Rightarrow> bool" where
  "filteredData_keep selectedMonths rec =
     (let parts = split CHR ''.'' (datum rec) in
      if length parts = 3 then
        (let month = padStart 2 CHR ''0'' (parts ! 1);
             year = (if length (parts ! 2) = 2 then ''20'' @ parts ! 2 else parts ! 2);
             key = year @ ''-'' @ month
         in key \<in> set selectedMonths)
      else False)"

text \<open>\<open>filteredData\<close> (lines 56 to 68).\<close>

definition filteredData :: "ProductionRecord list \<Rightarrow> string list \<Rightarrow> ProductionRecord list" where
  "filteredData allProcessedData selectedMonths =
     (if length selectedMonths = 0 then allProcessedData
      else filter (filteredData_keep selectedMonths) allProcessedData)"

text \<open>
  The month key of a date string, as both callbacks derive it (their first five lines
  are the same text): the name under which the theorems below speak of ``the derived
  month key''. \<open>availableMonths_add_monthKey\<close> and \<open>filteredData_keep_monthKey\<close> prove
  that the callbacks compute it.
\<close>

definition monthKey :: "string \<Rightarrow> string option" where
  "monthKey d =
     (case split CHR ''.'' d of
        [dd, mm, yy] \<Rightarrow>
          Some ((if length yy = 2 then ''20'' @ yy else yy) @ ''-'' @ padStart 2 CHR ''0'' mm)
      | _ \<Rightarrow> None)"

section \<open>The functions App.tsx imports\<close>

text \<open>
  A value raised by \<^verbatim>\<open>throw\<close> or a rejected promise: an \<^verbatim>\<open>Error\<close> object with its
  message, or any other value.
\<close>

datatype thrown = ErrorObject string | OtherValue

text \<open>
  \<^verbatim>\<open>processRawData\<close> (utils/dataProcessors), \<^verbatim>\<open>parseProductionDataWithAi\<close>
  (services/pdfParsingService) and \<^verbatim>\<open>getGeminiInsights\<close> (services/geminiService)
  are not part of the sources at hand. They are parameters of the model: any function
  of the type the calls in App.tsx give them. The two services return promises; a
  promise that rejects is the value \<open>Inl\<close>. \<open>'f\<close> is the type of a \<^verbatim>\<open>File\<close>.
\<close>

type_synonym processRawData_fn = "ProductionRecord list \<Rightarrow> AppSettings \<Rightarrow> ProductionRecord list"

type_synonym 'f parse_fn = "'f \<Rightarrow> AppSettings \<Rightarrow> thrown + ProductionRecord list"

type_synonym insights_fn = "ProductionRecord list \<Rightarrow> thrown + string"

section \<open>The derived list of processed records (App.tsx, lines 33 to 37)\<close>

text \<open>\<^verbatim>\<open>xs[0]\<close>: the first element, \<^verbatim>\<open>undefined\<close> (here \<open>None\<close>) for an empty array.\<close>

definition index0 :: "'a list \<Rightarrow> 'a option" where
  "index0 xs = (case xs of [] \<Rightarrow> None | x # _ \<Rightarrow> Some x)"

text \<open>
  The body of the memo \<open>allProcessedData\<close>:
  \<^verbatim>\<open>uploadedRecords.map(rec => processRawData([rec], settings)[0])\<close>.
  An element is \<open>None\<close> where \<^verbatim>\<open>processRawData\<close> returns an empty array.
\<close>

definition allProcessedData ::
  "processRawData_fn \<Rightarrow> AppSettings \<Rightarrow> ProductionRecord list \<Rightarrow> ProductionRecord option list" where
  "allProcessedData processRawData settings uploadedRecords =
     map (\<lambda>rec. index0 (processRawData [rec] settings)) uploadedRecords"

section \<open>File upload (App.tsx, lines 82 to 103)\<close>

text \<open>
  What \<open>handleFileUpload\<close> does to the component and to the browser, in the order
  of the calls: the state setters it calls (\<^verbatim>\<open>setUploadedRecords\<close> with its updater
  function), the timer it starts, \<^verbatim>\<open>console.error\<close> and \<^verbatim>\<open>alert\<close>.
\<close>

datatype action =
    SetIsParsingPdf bool
  | SetUploadedRecords "ProductionRecord list \<Rightarrow> ProductionRecord list"
  | SetUploadStats "(nat \<times> nat) option"
  | SetTimeout_resetUploadStats
  | ConsoleError thrown
  | Alert string

text \<open>
  The loop of lines 87 to 90, from the file at hand onwards: each file is parsed in
  turn and its records are appended to \<open>allExtractedRecords\<close>; the first rejected call
  leaves the loop (and the \<^verbatim>\<open>try\<close> block) with the value thrown, and the files after
  it are not parsed.
\<close>

fun extract_loop ::
  "'f parse_fn \<Rightarrow> AppSettings \<Rightarrow> 'f list \<Rightarrow> ProductionRecord list \<Rightarrow> thrown + ProductionRecord list" where
  "extract_loop parseProductionDataWithAi settings [] allExtractedRecords = Inr allExtractedRecords"
| "extract_loop parseProductionDataWithAi settings (file # files) allExtractedRecords =
     (case parseProductionDataWithAi file settings of
        Inl error \<Rightarrow> Inl error
      | Inr records \<Rightarrow>
          extract_loop parseProductionDataWithAi settings files (allExtractedRecords @ records))"

text \<open>
  \<open>handleFileUpload\<close>: \<^verbatim>\<open>setIsParsingPdf(true)\<close>, then the \<^verbatim>\<open>try\<close> block (the loop, and
  after it lines 92 to 95), or the \<^verbatim>\<open>catch\<close> block (lines 98 and 99) when a call was
  rejected, then \<^verbatim>\<open>finally\<close>. \<open>uploadStats\<close> is the pair of \<^verbatim>\<open>files\<close> and \<^verbatim>\<open>count\<close>.
\<close>

definition handleFileUpload :: "'f parse_fn \<Rightarrow> AppSettings \<Rightarrow> 'f list \<Rightarrow> action list" where
  "handleFileUpload parseProductionDataWithAi settings files =
     [SetIsParsingPdf True] @
     (case extract_loop parseProductionDataWithAi settings files [] of
        Inr allExtractedRecords \<Rightarrow>
          [SetUploadedRecords (\<lambda>prev. prev @ allExtractedRecords),
           SetUploadStats (Some (length files, length allExtractedRecords)),
           SetTimeout_resetUploadStats]
      | Inl error \<Rightarrow>
          [ConsoleError error,
           Alert (case error of
                    ErrorObject message \<Rightarrow> message
                  | OtherValue \<Rightarrow> ''Fehler beim Verarbeiten der PDFs.'')]) @
     [SetIsParsingPdf False]"

text \<open>The actions that write the record store: the calls of \<^verbatim>\<open>setUploadedRecords\<close>.\<close>

fun writes_store :: "action \<Rightarrow> bool" where
  "writes_store (SetUploadedRecords updater) = True"
| "writes_store _ = False"

section \<open>The component (App.tsx, lines 14 to 103)\<close>

text \<open>The state cells of lines 15 to 30, with their initial values.\<close>

record AppState =
  settings :: AppSettings
  activeTab :: string
  aiInsights :: string
  isAiLoading :: bool
  isParsingPdf :: bool
  uploadedRecords :: "ProductionRecord list"
  uploadStats :: "(nat \<times> nat) option"
  selectedMonths :: "string list"

definition initial_settings :: AppSettings where
  "initial_settings =
     \<lparr>roundingMode = VARIANT_A, tombakThreshold = Num 85,
      tempBuckets = [Num 570, Num 610, Num 650], tempTolerance = Num 5\<rparr>"

definition initial_state :: AppState where
  "initial_state =
     \<lparr>settings = initial_settings, activeTab = ''dashboard'', aiInsights = [],
      isAiLoading = False, isParsingPdf = False, uploadedRecords = [],
      uploadStats = None, selectedMonths = []\<rparr>"

text \<open>
  The component between two events: its state cells, what React keeps for the three
  memos (the dependencies of the last computation and its value) and for the effect
  (its last dependency), and a log of what the component has done to the outside:
  the calls of \<^verbatim>\<open>processRawData\<close> and of \<^verbatim>\<open>getGeminiInsights\<close> with their arguments,
  the alerts and the console errors.
\<close>

record App =
  state :: AppState
  allProcessedData_memo ::
    "((AppSettings \<times> ProductionRecord list) \<times> ProductionRecord option list) option"
  availableMonths_memo :: "(ProductionRecord option list \<times> string list) option"
  filteredData_memo ::
    "((ProductionRecord option list \<times> string list) \<times> ProductionRecord list) option"
  fetchInsights_deps :: "ProductionRecord list option"
  processRawData_calls :: "(ProductionRecord list \<times> AppSettings) list"
  getGeminiInsights_calls :: "ProductionRecord list list"
  alerts :: "string list"
  console_errors :: "thrown list"

definition initial_App :: App where
  "initial_App =
     \<lparr>state = initial_state, allProcessedData_memo = None, availableMonths_memo = None,
      filteredData_memo = None, fetchInsights_deps = None, processRawData_calls = [],
      getGeminiInsights_calls = [], alerts = [], console_errors = []\<rparr>"

text \<open>
  \<^verbatim>\<open>useMemo(() => body, deps)\<close>: the kept value when the dependencies are those of the
  last computation, and \<open>body\<close> otherwise. React compares dependencies by reference;
  the model compares them by value. State values are replaced and never changed in
  place, so dependencies that differ in value differ in reference, and the model
  computes anew wherever the values differ.
\<close>

definition memo_hit :: "'d \<Rightarrow> ('d \<times> 'v) option \<Rightarrow> bool" where
  "memo_hit deps cell = (case cell of None \<Rightarrow> False | Some (d, v) \<Rightarrow> d = deps)"

definition useMemo :: "'v \<Rightarrow> 'd \<Rightarrow> ('d \<times> 'v) option \<Rightarrow> 'd \<times> 'v" where
  "useMemo body deps cell =
     (case cell of
        None \<Rightarrow> (deps, body)
      | Some (d, v) \<Rightarrow> if d = deps then (d, v) else (deps, body))"

text \<open>
  One run of the component function (lines 33 to 68): the three memos in order.
  When \<open>allProcessedData\<close> is computed anew, its calls of \<^verbatim>\<open>processRawData\<close> are logged.
  When it holds \<^verbatim>\<open>undefined\<close>, the \<^verbatim>\<open>forEach\<close> of \<open>availableMonths\<close>, computed anew in the
  same run, reads \<^verbatim>\<open>rec.datum\<close> of \<^verbatim>\<open>undefined\<close>: a TypeError, and the component has
  failed (\<open>None\<close>).
\<close>

definition render :: "processRawData_fn \<Rightarrow> App \<Rightarrow> App option" where
  "render processRawData app =
     (let st = state app;
          deps1 = (settings st, uploadedRecords st);
          m1 = useMemo (allProcessedData processRawData (settings st) (uploadedRecords st))
                 deps1 (allProcessedData_memo app);
          calls =
            (if memo_hit deps1 (allProcessedData_memo app) then []
             else map (\<lambda>rec. ([rec], settings st)) (uploadedRecords st))
      in case those (snd m1) of
           None \<Rightarrow> None
         | Some recs \<Rightarrow>
             Some (app
               \<lparr>allProcessedData_memo := Some m1,
                availableMonths_memo :=
                  Some (useMemo (availableMonths recs) (snd m1) (availableMonths_memo app)),
                filteredData_memo :=
                  Some (useMemo (filteredData recs (selectedMonths st))
                          (snd m1, selectedMonths st) (filteredData_memo app)),
                processRawData_calls := processRawData_calls app @ calls\<rparr>))"

text \<open>
  The values of \<^verbatim>\<open>allProcessedData\<close>, \<^verbatim>\<open>availableMonths\<close> and \<^verbatim>\<open>filteredData\<close> in the last
  run of the component function.
\<close>

definition current_allProcessedData :: "App \<Rightarrow> ProductionRecord option list" where
  "current_allProcessedData app =
     (case allProcessedData_memo app of None \<Rightarrow> [] | Some (deps, v) \<Rightarrow> v)"

definition current_availableMonths :: "App \<Rightarrow> string list" where
  "current_availableMonths app =
     (case availableMonths_memo app of None \<Rightarrow> [] | Some (deps, v) \<Rightarrow> v)"

definition current_filteredData :: "App \<Rightarrow> ProductionRecord list" where
  "current_filteredData app =
     (case filteredData_memo app of None \<Rightarrow> [] | Some (deps, v) \<Rightarrow> v)"

text \<open>
  The effect of lines 70 to 80, run after a run of the component function when
  \<open>filteredData\<close> is not the dependency it last ran with (compared by value, as in
  \<open>useMemo\<close>). \<open>fetchInsights\<close> calls \<^verbatim>\<open>getGeminiInsights\<close> only for a non-empty list; the
  call is taken to settle before the next event. When it rejects, lines 75 and 76
  are not reached. React, comparing by reference, runs the effect also when
  \<open>filteredData\<close> was computed anew to an equal list; the model does not, and the
  theorems on the calls of the service speak of the events after which the list
  differs or is empty.
\<close>

definition fetchInsights :: "insights_fn \<Rightarrow> ProductionRecord list \<Rightarrow> App \<Rightarrow> App" where
  "fetchInsights getGeminiInsights filteredData' app =
     (if length filteredData' > 0 then
        (let app1 = app
               \<lparr>state := (state app)\<lparr>isAiLoading := True\<rparr>,
                getGeminiInsights_calls := getGeminiInsights_calls app @ [filteredData']\<rparr>
         in case getGeminiInsights filteredData' of
              Inl error \<Rightarrow> app1
            | Inr insights \<Rightarrow>
                app1\<lparr>state := (state app1)\<lparr>aiInsights := insights, isAiLoading := False\<rparr>\<rparr>)
      else app)"

definition useEffect_fetchInsights :: "insights_fn \<Rightarrow> App \<Rightarrow> App" where
  "useEffect_fetchInsights getGeminiInsights app =
     (if fetchInsights_deps app = Some (current_filteredData app) then app
      else fetchInsights getGeminiInsights (current_filteredData app)
             (app\<lparr>fetchInsights_deps := Some (current_filteredData app)\<rparr>))"


text \<open>Carrying out an action of \<open>handleFileUpload\<close>.\<close>

fun perform :: "action \<Rightarrow> App \<Rightarrow> App" where
  "perform (SetIsParsingPdf b) app = app\<lparr>state := (state app)\<lparr>isParsingPdf := b\<rparr>\<rparr>"
| "perform (SetUploadedRecords updater) app =
     app\<lparr>state := (state app)\<lparr>uploadedRecords := updater (uploadedRecords (state app))\<rparr>\<rparr>"
| "perform (SetUploadStats stats) app = app\<lparr>state := (state app)\<lparr>uploadStats := stats\<rparr>\<rparr>"
| "perform SetTimeout_resetUploadStats app = app"
| "perform (ConsoleError error) app = app\<lparr>console_errors := console_errors app @ [error]\<rparr>"
| "perform (Alert message) app = app\<lparr>alerts := alerts app @ [message]\<rparr>"

text \<open>
  What can happen to the component: the child components call the setters they are
  given (\<^verbatim>\<open>setSettings\<close> and \<^verbatim>\<open>setActiveTab\<close> by the Sidebar, \<^verbatim>\<open>setSelectedMonths\<close> by the
  MonthFilter), files are uploaded or dropped, and the timer of line 95 fires.
\<close>

datatype 'f event =
    SetSettings AppSettings
  | SetSelectedMonths "string list"
  | SetActiveTab string
  | FileUpload "'f list"
  | UploadStatsTimeout

text \<open>
  The state after an event. \<open>handleFileUpload\<close> is the callback of the last run of the
  component function (\<^verbatim>\<open>useCallback\<close> with the dependency \<open>settings\<close>): it uses the
  current settings. It is run to its end before the next event.
\<close>

fun dispatch :: "'f parse_fn \<Rightarrow> 'f event \<Rightarrow> App \<Rightarrow> App" where
  "dispatch parseProductionDataWithAi (SetSettings s) app = app\<lparr>state := (state app)\<lparr>settings := s\<rparr>\<rparr>"
| "dispatch parseProductionDataWithAi (SetSelectedMonths ms) app =
     app\<lparr>state := (state app)\<lparr>selectedMonths := ms\<rparr>\<rparr>"
| "dispatch parseProductionDataWithAi (SetActiveTab t) app =
     app\<lparr>state := (state app)\<lparr>activeTab := t\<rparr>\<rparr>"
| "dispatch parseProductionDataWithAi (FileUpload files) app =
     foldl (\<lambda>a act. perform act a) app
       (handleFileUpload parseProductionDataWithAi (settings (state app)) files)"
| "dispatch parseProductionDataWithAi UploadStatsTimeout app =
     app\<lparr>state := (state app)\<lparr>uploadStats := None\<rparr>\<rparr>"

text \<open>
  An event, the run of the component function with the new state, and the effect.
  The state changes of the effect touch no dependency of a memo, so that the run
  they cause changes nothing (\<open>render_useEffect_again\<close> below).
\<close>

definition step ::
  "processRawData_fn \<Rightarrow> insights_fn \<Rightarrow> 'f parse_fn \<Rightarrow> 'f event \<Rightarrow> App \<Rightarrow> App option" where
  "step processRawData getGeminiInsights parseProductionDataWithAi ev app =
     map_option (useEffect_fetchInsights getGeminiInsights)
       (render processRawData (dispatch parseProductionDataWithAi ev app))"

fun run ::
  "processRawData_fn \<Rightarrow> insights_fn \<Rightarrow> 'f parse_fn \<Rightarrow> 'f event list \<Rightarrow> App \<Rightarrow> App option" where
  "run processRawData getGeminiInsights parseProductionDataWithAi [] app = Some app"
| "run processRawData getGeminiInsights parseProductionDataWithAi (ev # evs) app =
     (case step processRawData getGeminiInsights parseProductionDataWithAi ev app of
        None \<Rightarrow> None
      | Some app' \<Rightarrow> run processRawData getGeminiInsights parseProductionDataWithAi evs app')"

text \<open>A session: the first run of the component function and its effect, then the events.\<close>

definition mount :: "processRawData_fn \<Rightarrow> insights_fn \<Rightarrow> App option" where
  "mount processRawData getGeminiInsights =
     map_option (useEffect_fetchInsights getGeminiInsights) (render processRawData initial_App)"

definition session ::
  "processRawData_fn \<Rightarrow> insights_fn \<Rightarrow> 'f parse_fn \<Rightarrow> 'f event list \<Rightarrow> App option" where
  "session processRawData getGeminiInsights parseProductionDataWithAi evs =
     (case mount processRawData getGeminiInsights of
        None \<Rightarrow> None
      | Some app \<Rightarrow> run processRawData getGeminiInsights parseProductionDataWithAi evs app)"

section \<open>Configurations the specification calls invalid\<close>

text \<open>
  Modelled from the spec: the validity of a configuration. The sources have no
  function that checks a configuration; section 7 of the specification calls a
  configuration invalid when the rounding mode is not recognised, \<open>tempBuckets\<close> is
  not ascending or the tolerance is negative. Every value of \<open>RoundingMode\<close> is one of
  the two modes. A comparison with \<open>NaN\<close> is false.
\<close>

fun number_less :: "number \<Rightarrow> number \<Rightarrow> bool" where
  "number_less (Num a) (Num b) = (a < b)"
| "number_less _ _ = False"

fun number_nonneg :: "number \<Rightarrow> bool" where
  "number_nonneg (Num a) = (0 \<le> a)"
| "number_nonneg NaN = False"

definition valid_settings :: "AppSettings \<Rightarrow> bool" where
  "valid_settings s \<longleftrightarrow> sorted_wrt number_less (tempBuckets s) \<and> number_nonneg (tempTolerance s)"

section \<open>Inputs of the examples\<close>

text \<open>A record with a given id and date, the other fields fixed.\<close>

definition record_of :: "string \<Rightarrow> string \<Rightarrow> ProductionRecord" where
  "record_of i d =
     \<lparr>id_field = i, datum = d, ofen = ''1'', temperatur = ''610'', legierung = ''87'',
      gewichtKg = ''1200'', bemerkungen = [], temp_n = Num 610, alloy_n = Num 87,
      weight_n = Num 1200, tonnes = Num (12 / 10), tonnesRounded = Num (12 / 10),
      material = Unklar, tempBucket = ''610''\<rparr>"

text \<open>
  Stand-ins for the three imported functions: a processor that classifies each
  record by comparing its alloy value with the threshold of the settings it is
  given, a parser for files that are their own extraction results, and an insight
  service that answers with the ids of the records it is given.
\<close>

definition classify :: processRawData_fn where
  "classify recs s =
     map (\<lambda>rec. rec\<lparr>material :=
            (case (alloy_n rec, tombakThreshold s) of
               (Num a, Num t) \<Rightarrow> if t \<le> a then Cu else Messing
             | _ \<Rightarrow> Unklar)\<rparr>) recs"

definition parse_result :: "(thrown + ProductionRecord list) parse_fn" where
  "parse_result file s = file"

definition ids_of :: insights_fn where
  "ids_of recs = Inr (concat (map (\<lambda>rec. id_field rec @ '';'') recs))"

text \<open>A processor that returns no record.\<close>

definition drop_all :: processRawData_fn where
  "drop_all recs s = []"

section \<open>Invariants of the component\<close>

text \<open>
  Every kept value of a memo is the value of its body at the kept dependencies.
\<close>

definition memos_sound :: "processRawData_fn \<Rightarrow> App \<Rightarrow> bool" where
  "memos_sound P app \<longleftrightarrow>
     (case allProcessedData_memo app of
        None \<Rightarrow> True
      | Some ((s, u), v) \<Rightarrow> v = allProcessedData P s u) \<and>
     (case availableMonths_memo app of
        None \<Rightarrow> True
      | Some (apd, v) \<Rightarrow>
          (case those apd of None \<Rightarrow> False | Some recs \<Rightarrow> v = availableMonths recs)) \<and>
     (case filteredData_memo app of
        None \<Rightarrow> True
      | Some ((apd, sel), v) \<Rightarrow>
          (case those apd of None \<Rightarrow> False | Some recs \<Rightarrow> v = filteredData recs sel))"

text \<open>
  The memos are those of a run of the component function with the present state.
\<close>

definition rendered :: "processRawData_fn \<Rightarrow> App \<Rightarrow> bool" where
  "rendered P app \<longleftrightarrow>
     (let st = state app; apd = allProcessedData P (settings st) (uploadedRecords st) in
      case those apd of
        None \<Rightarrow> False
      | Some recs \<Rightarrow>
          allProcessedData_memo app = Some ((settings st, uploadedRecords st), apd) \<and>
          availableMonths_memo app = Some (apd, availableMonths recs) \<and>
          filteredData_memo app =
            Some ((apd, selectedMonths st), filteredData recs (selectedMonths st)))"

text \<open>
  The memos are those of the present state, and the effect has run for the present
  \<open>filteredData\<close>: the component as it is between two events.
\<close>

definition settled :: "processRawData_fn \<Rightarrow> App \<Rightarrow> bool" where
  "settled P app \<longleftrightarrow> rendered P app \<and> fetchInsights_deps app = Some (current_filteredData app)"



section \<open>Splitting, month keys and available months\<close>

lemma length_split_from:
  "length (split_from sep cur s) = Suc (length (filter (\<lambda>c. c = sep) s))"
  by (induction s arbitrary: cur) auto

text \<open>
  \<^verbatim>\<open>"a..b.".split(".")\<close> is \<^verbatim>\<open>["a", "", "b", ""]\<close>, \<^verbatim>\<open>"".split(".")\<close> is \<^verbatim>\<open>[""]\<close>, and
  \<^verbatim>\<open>"7".padStart(2, "0")\<close> is \<^verbatim>\<open>"07"\<close>, \<^verbatim>\<open>"123".padStart(2, "0")\<close> is \<^verbatim>\<open>"123"\<close>.
\<close>

lemma split_examples:
  "split CHR ''.'' ''a..b.'' = [''a'', [], ''b'', []]"
  "split CHR ''.'' [] = [[]]"
  "split CHR ''.'' ''05.03.24'' = [''05'', ''03'', ''24'']"
  by (simp_all add: split_def)

lemma padStart_examples:
  "padStart 2 CHR ''0'' ''7'' = ''07''"
  "padStart 2 CHR ''0'' [] = ''00''"
  "padStart 2 CHR ''0'' ''123'' = ''123''"
  by (simp_all add: padStart_def numeral_2_eq_2)

lemma length_split: "length (split sep s) = Suc (length (filter (\<lambda>c. c = sep) s))"
  by (simp add: split_def length_split_from)

lemma monthKey_None_iff: "monthKey d = None \<longleftrightarrow> length (split CHR ''.'' d) \<noteq> 3"
  by (simp add: monthKey_def split: list.split)

lemma availableMonths_add_monthKey:
  "availableMonths_add months rec =
     (case monthKey (datum rec) of Some k \<Rightarrow> Set_add k months | None \<Rightarrow> months)"
  by (simp add: availableMonths_add_def monthKey_def Let_def split: list.split)

lemma filteredData_keep_monthKey:
  "filteredData_keep sel rec \<longleftrightarrow> monthKey (datum rec) \<in> Some ` set sel"
  by (auto simp add: filteredData_keep_def monthKey_def Let_def split: list.split)

lemma set_Set_add: "set (Set_add k months) = insert k (set months)"
  by (auto simp: Set_add_def)

lemma distinct_Set_add: "distinct months \<Longrightarrow> distinct (Set_add k months)"
  by (simp add: Set_add_def)

lemma set_availableMonths_add:
  "set (availableMonths_add months rec) = set months \<union> {k. monthKey (datum rec) = Some k}"
  by (cases "monthKey (datum rec)") (auto simp: availableMonths_add_monthKey set_Set_add)

lemma distinct_availableMonths_add:
  "distinct months \<Longrightarrow> distinct (availableMonths_add months rec)"
  by (cases "monthKey (datum rec)") (simp_all add: availableMonths_add_monthKey distinct_Set_add)

lemma set_foldl_availableMonths_add:
  "set (foldl availableMonths_add months recs) =
     set months \<union> {k. \<exists>rec \<in> set recs. monthKey (datum rec) = Some k}"
proof (induction recs arbitrary: months)
  case Nil
  show ?case by simp
next
  case (Cons rec recs)
  have "set (foldl availableMonths_add months (rec # recs)) =
        set (availableMonths_add months rec) \<union> {k. \<exists>r \<in> set recs. monthKey (datum r) = Some k}"
    using Cons.IH [of "availableMonths_add months rec"] by simp
  then show ?case
    by (auto simp: set_availableMonths_add)
qed

lemma distinct_foldl_availableMonths_add:
  "distinct months \<Longrightarrow> distinct (foldl availableMonths_add months recs)"
proof (induction recs arbitrary: months)
  case Nil
  then show ?case by simp
next
  case (Cons rec recs)
  from Cons.prems have "distinct (availableMonths_add months rec)"
    by (rule distinct_availableMonths_add)
  then have "distinct (foldl availableMonths_add (availableMonths_add months rec) recs)"
    by (rule Cons.IH)
  then show ?case by simp
qed

lemma set_availableMonths:
  "set (availableMonths recs) = {k. \<exists>rec \<in> set recs. monthKey (datum rec) = Some k}"
  by (simp add: availableMonths_def set_foldl_availableMonths_add)

lemma distinct_availableMonths: "distinct (availableMonths recs)"
  by (simp add: availableMonths_def distinct_foldl_availableMonths_add)

lemma descending_availableMonths: "sorted_wrt (\<lambda>a b. a \<ge> b) (availableMonths recs)"
  by (simp add: availableMonths_def sorted_wrt_rev)

lemma availableMonths_add_skip:
  "length (split CHR ''.'' (datum rec)) \<noteq> 3 \<Longrightarrow> availableMonths_add months rec = months"
  by (simp add: availableMonths_add_def Let_def)

lemma availableMonths_skip:
  assumes "length (split CHR ''.'' (datum rec)) \<noteq> 3"
  shows "availableMonths (xs @ rec # ys) = availableMonths (xs @ ys)"
  using assms by (simp add: availableMonths_def availableMonths_add_skip)

lemma count_list_filter:
  "count_list (filter P xs) x = (if P x then count_list xs x else 0)"
  by (induction xs) auto

lemma filteredData_empty_selection: "filteredData recs [] = recs"
  by (simp add: filteredData_def)

lemma filteredData_selection:
  "sel \<noteq> [] \<Longrightarrow> filteredData recs sel = filter (filteredData_keep sel) recs"
  by (simp add: filteredData_def)


section \<open>Claims about the month key and the month filter\<close>

text \<open>
  C2. For every date string: if splitting on \<open>.\<close> yields exactly three components,
  the derived month key is \<open>YYYY-MM\<close>, where \<open>MM\<close> is the second component left-padded
  with zeros to two digits and \<open>YYYY\<close> is the third component prefixed with \<open>20\<close> when
  it has exactly two characters and used as it is when it has four; if the component
  count is not exactly three, no month key is derived, and the record contributes
  nothing to \<open>availableMonths\<close>. Stated for both places that derive the key: the
  callback that fills the set of months and the callback of the filter.
\<close>

theorem month_key_derivation:
  "(split CHR ''.'' (datum rec) = [dd, mm, yy] \<longrightarrow>
      (length yy = 2 \<longrightarrow>
         availableMonths_add months rec =
           Set_add (''20'' @ yy @ ''-'' @ replicate (2 - length mm) CHR ''0'' @ mm) months \<and>
         filteredData_keep sel rec =
           (''20'' @ yy @ ''-'' @ replicate (2 - length mm) CHR ''0'' @ mm \<in> set sel)) \<and>
      (length yy = 4 \<longrightarrow>
         availableMonths_add months rec =
           Set_add (yy @ ''-'' @ replicate (2 - length mm) CHR ''0'' @ mm) months \<and>
         filteredData_keep sel rec =
           (yy @ ''-'' @ replicate (2 - length mm) CHR ''0'' @ mm \<in> set sel))) \<and>
   (length (split CHR ''.'' (datum rec)) \<noteq> 3 \<longrightarrow>
      availableMonths_add months rec = months \<and>
      \<not> filteredData_keep sel rec \<and>
      availableMonths (xs @ rec # ys) = availableMonths (xs @ ys))"
proof -
  have three: "availableMonths_add months rec =
           Set_add ((if length yy = 2 then ''20'' @ yy else yy) @ ''-'' @
                    replicate (2 - length mm) CHR ''0'' @ mm) months \<and>
         filteredData_keep sel rec =
           ((if length yy = 2 then ''20'' @ yy else yy) @ ''-'' @
            replicate (2 - length mm) CHR ''0'' @ mm \<in> set sel)"
    if "split CHR ''.'' (datum rec) = [dd, mm, yy]"
    using that by (simp add: availableMonths_add_def filteredData_keep_def padStart_def Let_def)
  have other: "availableMonths_add months rec = months \<and> \<not> filteredData_keep sel rec \<and>
      availableMonths (xs @ rec # ys) = availableMonths (xs @ ys)"
    if "length (split CHR ''.'' (datum rec)) \<noteq> 3"
    using that by (simp add: availableMonths_add_skip availableMonths_skip filteredData_keep_def Let_def)
  from three other show ?thesis by simp
qed


theorem month_key_derivation_witness:
  "availableMonths_add [] (record_of ''1'' ''05.03.24'') = [''2024-03''] \<and>
   filteredData_keep [''2024-03''] (record_of ''1'' ''05.03.24'') \<and>
   availableMonths_add [] (record_of ''2'' ''5.3.2024'') = [''2024-03''] \<and>
   filteredData_keep [''2024-03''] (record_of ''2'' ''5.3.2024'') \<and>
   availableMonths_add [''2024-03''] (record_of ''3'' ''bad-date'') = [''2024-03''] \<and>
   \<not> filteredData_keep [''2024-03''] (record_of ''3'' ''bad-date'') \<and>
   availableMonths ([record_of ''1'' ''05.03.24''] @ record_of ''3'' ''bad-date'' # []) =
     availableMonths ([record_of ''1'' ''05.03.24''] @ [])"
proof -
  have a: "split CHR ''.'' (datum (record_of ''1'' ''05.03.24'')) = [''05'', ''03'', ''24'']"
    by (simp add: record_of_def split_def)
  have b: "split CHR ''.'' (datum (record_of ''2'' ''5.3.2024'')) = [''5'', ''3'', ''2024'']"
    by (simp add: record_of_def split_def)
  have c: "length (split CHR ''.'' (datum (record_of ''3'' ''bad-date''))) \<noteq> 3"
    by (simp add: record_of_def split_def)
  show ?thesis
    using
      month_key_derivation [of "record_of ''1'' ''05.03.24''" "''05''" "''03''" "''24''"
        "[]" "[''2024-03'']" "[]" "[]"]
      month_key_derivation [of "record_of ''2'' ''5.3.2024''" "''5''" "''3''" "''2024''"
        "[]" "[''2024-03'']" "[]" "[]"]
      month_key_derivation [of "record_of ''3'' ''bad-date''" "''a''" "''b''" "''c''"
        "[''2024-03'']" "[''2024-03'']" "[record_of ''1'' ''05.03.24'']" "[]"]
      a b c
    by (simp add: Set_add_def)
qed

text \<open>
  C3. For every list of enriched records and every list of selected months: if the
  selection is empty, filtering returns the whole list unchanged; if it is not empty,
  filtering returns exactly the records whose derived month key is a member of the
  selection, and a record with no derivable month key (a date that does not have
  exactly three components between dots) is not in the result.
\<close>

theorem filter_semantics:
  "(sel = [] \<longrightarrow> filteredData recs sel = recs) \<and>
   (sel \<noteq> [] \<longrightarrow>
      filteredData recs sel = filter (\<lambda>rec. monthKey (datum rec) \<in> Some ` set sel) recs \<and>
      (\<forall>rec \<in> set recs. length (split CHR ''.'' (datum rec)) \<noteq> 3 \<longrightarrow>
         rec \<notin> set (filteredData recs sel)))"
proof -
  have "filteredData recs sel = filter (\<lambda>rec. monthKey (datum rec) \<in> Some ` set sel) recs"
    if "sel \<noteq> []"
    using that by (simp add: filteredData_selection filteredData_keep_monthKey [abs_def])
  moreover have "rec \<notin> set (filter (\<lambda>rec. monthKey (datum rec) \<in> Some ` set sel) recs)"
    if "length (split CHR ''.'' (datum rec)) \<noteq> 3" for rec
  proof -
    from that have "monthKey (datum rec) = None" by (simp add: monthKey_None_iff)
    then show ?thesis by auto
  qed
  ultimately show ?thesis
    by (auto simp: filteredData_empty_selection)
qed


theorem filter_semantics_witness:
  "filteredData [record_of ''1'' ''05.03.24'', record_of ''3'' ''bad-date''] [] =
     [record_of ''1'' ''05.03.24'', record_of ''3'' ''bad-date''] \<and>
   filteredData [record_of ''1'' ''05.03.24'', record_of ''3'' ''bad-date''] [''2024-03''] =
     [record_of ''1'' ''05.03.24''] \<and>
   record_of ''3'' ''bad-date'' \<notin>
     set (filteredData [record_of ''1'' ''05.03.24'', record_of ''3'' ''bad-date''] [''2024-03''])"
proof -
  have k1: "monthKey (datum (record_of ''1'' ''05.03.24'')) = Some ''2024-03''"
    by (simp add: monthKey_def record_of_def split_def padStart_def)
  have k3: "monthKey (datum (record_of ''3'' ''bad-date'')) = None"
    by (simp add: monthKey_def record_of_def split_def)
  have c: "length (split CHR ''.'' (datum (record_of ''3'' ''bad-date''))) \<noteq> 3"
    by (simp add: record_of_def split_def)
  show ?thesis
    using
      filter_semantics [of "[]" "[record_of ''1'' ''05.03.24'', record_of ''3'' ''bad-date'']"]
      filter_semantics [of "[''2024-03'']"
        "[record_of ''1'' ''05.03.24'', record_of ''3'' ''bad-date'']"]
      k1 k3 c
    by (simp add: record_of_def)
qed

text \<open>
  C10. For every list of processed records and every non-empty selection of months,
  the filtered result is a sublist of the input in the order of the input: the
  records kept stand in their order and as often as in the input, and each is a
  record of the input, unchanged.
\<close>

theorem filter_order_preserving:
  "sel \<noteq> [] \<Longrightarrow>
   subseq (filteredData recs sel) recs \<and>
   (\<forall>rec \<in> set (filteredData recs sel).
      rec \<in> set recs \<and> count_list (filteredData recs sel) rec = count_list recs rec)"
  by (simp add: filteredData_selection count_list_filter)


theorem filter_order_preserving_witness:
  "[''2024-03''] \<noteq> [] \<and>
   subseq (filteredData [record_of ''1'' ''05.03.24'', record_of ''3'' ''bad-date'',
             record_of ''1'' ''05.03.24''] [''2024-03''])
     [record_of ''1'' ''05.03.24'', record_of ''3'' ''bad-date'', record_of ''1'' ''05.03.24''] \<and>
   count_list (filteredData [record_of ''1'' ''05.03.24'', record_of ''3'' ''bad-date'',
             record_of ''1'' ''05.03.24''] [''2024-03'']) (record_of ''1'' ''05.03.24'') = 2"
proof -
  have k1: "filteredData_keep [''2024-03''] (record_of ''1'' ''05.03.24'')"
    by (simp add: filteredData_keep_def record_of_def split_def padStart_def)
  have k3: "\<not> filteredData_keep [''2024-03''] (record_of ''3'' ''bad-date'')"
    by (simp add: filteredData_keep_def record_of_def split_def)
  have f: "filteredData [record_of ''1'' ''05.03.24'', record_of ''3'' ''bad-date'',
             record_of ''1'' ''05.03.24''] [''2024-03''] =
           [record_of ''1'' ''05.03.24'', record_of ''1'' ''05.03.24'']"
    by (simp add: filteredData_def k1 k3)
  show ?thesis
    using filter_order_preserving [of "[''2024-03'']"
      "[record_of ''1'' ''05.03.24'', record_of ''3'' ''bad-date'', record_of ''1'' ''05.03.24'']"]
    by (simp add: f)
qed

section \<open>Memos, effect and events\<close>

lemma rendered_memos_sound: "rendered P app \<Longrightarrow> memos_sound P app"
  by (auto simp: rendered_def memos_sound_def Let_def split: option.splits)

lemma useMemo_allProcessedData:
  assumes "memos_sound P app"
  shows "useMemo (allProcessedData P s u) (s, u) (allProcessedData_memo app) =
         ((s, u), allProcessedData P s u)"
  using assms by (cases "allProcessedData_memo app") (auto simp: useMemo_def memos_sound_def)

lemma useMemo_availableMonths:
  assumes "memos_sound P app" and "those apd = Some recs"
  shows "useMemo (availableMonths recs) apd (availableMonths_memo app) =
         (apd, availableMonths recs)"
  using assms by (cases "availableMonths_memo app") (auto simp: useMemo_def memos_sound_def)

lemma useMemo_filteredData:
  assumes "memos_sound P app" and "those apd = Some recs"
  shows "useMemo (filteredData recs sel) (apd, sel) (filteredData_memo app) =
         ((apd, sel), filteredData recs sel)"
  using assms by (cases "filteredData_memo app") (auto simp: useMemo_def memos_sound_def)

lemma render_rendered:
  assumes sound: "memos_sound P app" and r: "render P app = Some app'"
  shows "rendered P app'"
proof -
  let ?st = "state app"
  let ?apd = "allProcessedData P (settings ?st) (uploadedRecords ?st)"
  note m1 = useMemo_allProcessedData [OF sound, of "settings ?st" "uploadedRecords ?st"]
  from r m1 obtain recs where recs: "those ?apd = Some recs"
    by (auto simp: render_def Let_def split: option.splits)
  note m2 = useMemo_availableMonths [OF sound recs]
  note m3 = useMemo_filteredData [OF sound recs, of "selectedMonths ?st"]
  from r m1 m2 m3 recs show ?thesis
    by (auto simp: render_def rendered_def Let_def)
qed

lemma render_defined:
  assumes sound: "memos_sound P app"
    and "those (allProcessedData P (settings (state app)) (uploadedRecords (state app))) = Some recs"
  shows "\<exists>app'. render P app = Some app'"
  using assms useMemo_allProcessedData [OF sound, of "settings (state app)" "uploadedRecords (state app)"]
  by (simp add: render_def Let_def)

lemma render_state: "render P app = Some app' \<Longrightarrow> state app' = state app"
  by (auto simp: render_def Let_def split: option.splits)

lemma render_others:
  "render P app = Some app' \<Longrightarrow>
   fetchInsights_deps app' = fetchInsights_deps app \<and>
   getGeminiInsights_calls app' = getGeminiInsights_calls app \<and>
   alerts app' = alerts app \<and> console_errors app' = console_errors app"
  by (auto simp: render_def Let_def split: option.splits)

lemma render_again:
  assumes "rendered P app"
  shows "render P app = Some app"
proof -
  from assms obtain recs where
    recs: "those (allProcessedData P (settings (state app)) (uploadedRecords (state app))) = Some recs"
    and m: "allProcessedData_memo app =
          Some ((settings (state app), uploadedRecords (state app)),
                allProcessedData P (settings (state app)) (uploadedRecords (state app)))"
       "availableMonths_memo app =
          Some (allProcessedData P (settings (state app)) (uploadedRecords (state app)),
                availableMonths recs)"
       "filteredData_memo app =
          Some ((allProcessedData P (settings (state app)) (uploadedRecords (state app)),
                 selectedMonths (state app)), filteredData recs (selectedMonths (state app)))"
    by (auto simp: rendered_def Let_def split: option.splits)
  show ?thesis
    by (simp add: render_def Let_def useMemo_def memo_hit_def m recs)
qed

lemma perform_memos:
  "allProcessedData_memo (perform act app) = allProcessedData_memo app \<and>
   availableMonths_memo (perform act app) = availableMonths_memo app \<and>
   filteredData_memo (perform act app) = filteredData_memo app \<and>
   fetchInsights_deps (perform act app) = fetchInsights_deps app \<and>
   processRawData_calls (perform act app) = processRawData_calls app \<and>
   getGeminiInsights_calls (perform act app) = getGeminiInsights_calls app"
  by (cases act) simp_all

lemma foldl_perform_memos:
  "allProcessedData_memo (foldl (\<lambda>a act. perform act a) app acts) = allProcessedData_memo app \<and>
   availableMonths_memo (foldl (\<lambda>a act. perform act a) app acts) = availableMonths_memo app \<and>
   filteredData_memo (foldl (\<lambda>a act. perform act a) app acts) = filteredData_memo app \<and>
   fetchInsights_deps (foldl (\<lambda>a act. perform act a) app acts) = fetchInsights_deps app \<and>
   processRawData_calls (foldl (\<lambda>a act. perform act a) app acts) = processRawData_calls app \<and>
   getGeminiInsights_calls (foldl (\<lambda>a act. perform act a) app acts) = getGeminiInsights_calls app"
  by (induction acts arbitrary: app) (simp_all add: perform_memos)

lemma dispatch_memos:
  "allProcessedData_memo (dispatch parse ev app) = allProcessedData_memo app \<and>
   availableMonths_memo (dispatch parse ev app) = availableMonths_memo app \<and>
   filteredData_memo (dispatch parse ev app) = filteredData_memo app \<and>
   fetchInsights_deps (dispatch parse ev app) = fetchInsights_deps app \<and>
   processRawData_calls (dispatch parse ev app) = processRawData_calls app \<and>
   getGeminiInsights_calls (dispatch parse ev app) = getGeminiInsights_calls app"
  by (cases ev) (simp_all add: foldl_perform_memos)

lemma dispatch_memos_sound: "memos_sound P (dispatch parse ev app) = memos_sound P app"
  by (simp add: memos_sound_def dispatch_memos)

lemma dispatch_FileUpload:
  "dispatch parse (FileUpload files) app =
     (case extract_loop parse (settings (state app)) files [] of
        Inr allExtractedRecords \<Rightarrow>
          app\<lparr>state := (state app)
                 \<lparr>isParsingPdf := False,
                  uploadedRecords := uploadedRecords (state app) @ allExtractedRecords,
                  uploadStats := Some (length files, length allExtractedRecords)\<rparr>\<rparr>
      | Inl error \<Rightarrow>
          app\<lparr>state := (state app)\<lparr>isParsingPdf := False\<rparr>,
               console_errors := console_errors app @ [error],
               alerts := alerts app @
                 [case error of ErrorObject message \<Rightarrow> message
                  | OtherValue \<Rightarrow> ''Fehler beim Verarbeiten der PDFs.'']\<rparr>)"
  by (simp add: handleFileUpload_def split: sum.split)

lemma fetchInsights_memos:
  "allProcessedData_memo (fetchInsights G fd app) = allProcessedData_memo app \<and>
   availableMonths_memo (fetchInsights G fd app) = availableMonths_memo app \<and>
   filteredData_memo (fetchInsights G fd app) = filteredData_memo app \<and>
   fetchInsights_deps (fetchInsights G fd app) = fetchInsights_deps app \<and>
   processRawData_calls (fetchInsights G fd app) = processRawData_calls app \<and>
   alerts (fetchInsights G fd app) = alerts app \<and>
   console_errors (fetchInsights G fd app) = console_errors app \<and>
   settings (state (fetchInsights G fd app)) = settings (state app) \<and>
   uploadedRecords (state (fetchInsights G fd app)) = uploadedRecords (state app) \<and>
   selectedMonths (state (fetchInsights G fd app)) = selectedMonths (state app)"
  by (simp add: fetchInsights_def Let_def split: sum.split)

lemma useEffect_memos:
  "allProcessedData_memo (useEffect_fetchInsights G app) = allProcessedData_memo app \<and>
   availableMonths_memo (useEffect_fetchInsights G app) = availableMonths_memo app \<and>
   filteredData_memo (useEffect_fetchInsights G app) = filteredData_memo app \<and>
   processRawData_calls (useEffect_fetchInsights G app) = processRawData_calls app \<and>
   alerts (useEffect_fetchInsights G app) = alerts app \<and>
   console_errors (useEffect_fetchInsights G app) = console_errors app \<and>
   settings (state (useEffect_fetchInsights G app)) = settings (state app) \<and>
   uploadedRecords (state (useEffect_fetchInsights G app)) = uploadedRecords (state app) \<and>
   selectedMonths (state (useEffect_fetchInsights G app)) = selectedMonths (state app)"
  by (simp add: useEffect_fetchInsights_def fetchInsights_memos)

lemma useEffect_current_filteredData:
  "current_filteredData (useEffect_fetchInsights G app) = current_filteredData app"
  by (simp add: current_filteredData_def useEffect_memos)

lemma useEffect_deps:
  "fetchInsights_deps (useEffect_fetchInsights G app) = Some (current_filteredData app)"
  by (simp add: useEffect_fetchInsights_def fetchInsights_memos)

lemma useEffect_rendered: "rendered P (useEffect_fetchInsights G app) = rendered P app"
  by (simp add: rendered_def Let_def useEffect_memos cong: option.case_cong)

lemma step_settled:
  assumes "memos_sound P app" and "step P G parse ev app = Some app'"
  shows "settled P app'"
proof -
  from assms(2) obtain app1 where r: "render P (dispatch parse ev app) = Some app1"
    and app': "app' = useEffect_fetchInsights G app1"
    by (auto simp: step_def)
  from assms(1) have "memos_sound P (dispatch parse ev app)"
    by (simp add: dispatch_memos_sound)
  then have "rendered P app1" using r by (rule render_rendered)
  then show ?thesis
    by (simp add: settled_def app' useEffect_rendered useEffect_deps useEffect_current_filteredData)
qed

lemma settled_memos_sound: "settled P app \<Longrightarrow> memos_sound P app"
  by (simp add: settled_def rendered_memos_sound)

lemma run_settled:
  "settled P app \<Longrightarrow> run P G parse evs app = Some app' \<Longrightarrow> settled P app'"
proof (induction evs arbitrary: app)
  case Nil
  then show ?case by simp
next
  case (Cons ev evs)
  from Cons.prems(2) obtain app1 where s: "step P G parse ev app = Some app1"
    and r: "run P G parse evs app1 = Some app'"
    by (auto split: option.splits)
  from Cons.prems(1) have "memos_sound P app" by (rule settled_memos_sound)
  then have "settled P app1" using s by (rule step_settled)
  then show ?case using r by (rule Cons.IH)
qed

lemma memos_sound_initial: "memos_sound P initial_App"
  by (simp add: memos_sound_def initial_App_def)

lemma mount_settled: "mount P G = Some app \<Longrightarrow> settled P app"
proof -
  assume m: "mount P G = Some app"
  then obtain app1 where r: "render P initial_App = Some app1"
    and app: "app = useEffect_fetchInsights G app1"
    by (auto simp: mount_def)
  from memos_sound_initial r have "rendered P app1" by (rule render_rendered)
  then show ?thesis
    by (simp add: settled_def app useEffect_rendered useEffect_deps useEffect_current_filteredData)
qed

lemma session_settled:
  assumes "session P G parse evs = Some app"
  shows "settled P app"
proof -
  from assms obtain app0 where m: "mount P G = Some app0"
    and r: "run P G parse evs app0 = Some app"
    by (auto simp: session_def split: option.splits)
  from m have "settled P app0" by (rule mount_settled)
  then show ?thesis using r by (rule run_settled)
qed

lemma run_append:
  "run P G parse (evs @ evs') app =
     (case run P G parse evs app of None \<Rightarrow> None | Some app1 \<Rightarrow> run P G parse evs' app1)"
  by (induction evs arbitrary: app) (auto split: option.splits)

lemma session_append:
  "session P G parse (evs @ evs') =
     (case session P G parse evs of None \<Rightarrow> None | Some app1 \<Rightarrow> run P G parse evs' app1)"
  by (simp add: session_def run_append split: option.splits)


section \<open>The upload loop and the record store\<close>

lemma extract_loop_Inr_iff:
  "extract_loop parse s files acc = Inr recs \<longleftrightarrow>
     (\<exists>rss. map (\<lambda>f. parse f s) files = map Inr rss \<and> recs = acc @ concat rss)"
proof (induction files arbitrary: acc)
  case Nil
  show ?case by auto
next
  case (Cons f files)
  show ?case
  proof (cases "parse f s")
    case (Inl e)
    then show ?thesis by (auto simp: map_eq_Cons_conv)
  next
    case (Inr rs)
    then show ?thesis
      by (auto simp: Cons.IH map_eq_Cons_conv Cons_eq_map_conv)
  qed
qed

lemma extract_loop_all:
  "map (\<lambda>f. parse f s) files = map Inr rss \<Longrightarrow>
   extract_loop parse s files acc = Inr (acc @ concat rss)"
  by (simp add: extract_loop_Inr_iff)

lemma extract_loop_first_failure:
  assumes "map (\<lambda>f. parse f s) pre = map Inr rss" and "parse file s = Inl error"
  shows "extract_loop parse s (pre @ file # post) acc = Inl error"
  using assms
proof (induction pre arbitrary: acc rss)
  case Nil
  then show ?case by simp
next
  case (Cons p pre)
  from Cons.prems(1) obtain rs rss' where "parse p s = Inr rs"
    and "map (\<lambda>f. parse f s) pre = map Inr rss'"
    by (auto simp: map_eq_Cons_conv Cons_eq_map_conv)
  then show ?case using Cons.IH [OF _ Cons.prems(2)] by simp
qed

lemma extract_loop_isl:
  "isl (extract_loop parse s files acc) \<longleftrightarrow> (\<exists>f \<in> set files. isl (parse f s))"
  by (induction files arbitrary: acc) (auto split: sum.splits)

lemma dispatch_FileUpload_failure:
  assumes "extract_loop parse (settings (state app)) files [] = Inl error"
  shows "dispatch parse (FileUpload files) app =
          app\<lparr>state := (state app)\<lparr>isParsingPdf := False\<rparr>,
               console_errors := console_errors app @ [error],
               alerts := alerts app @
                 [case error of ErrorObject message \<Rightarrow> message
                  | OtherValue \<Rightarrow> ''Fehler beim Verarbeiten der PDFs.'']\<rparr>"
  unfolding dispatch_FileUpload using assms by simp

lemma dispatch_FileUpload_success:
  assumes "extract_loop parse (settings (state app)) files [] = Inr recs"
  shows "dispatch parse (FileUpload files) app =
          app\<lparr>state := (state app)
                 \<lparr>isParsingPdf := False,
                  uploadedRecords := uploadedRecords (state app) @ recs,
                  uploadStats := Some (length files, length recs)\<rparr>\<rparr>"
  unfolding dispatch_FileUpload using assms by simp

lemma handleFileUpload_writes_failure:
  assumes "extract_loop parse s files [] = Inl error"
  shows "filter writes_store (handleFileUpload parse s files) = []"
  using assms by (simp add: handleFileUpload_def)

lemma handleFileUpload_writes_success:
  assumes "extract_loop parse s files [] = Inr recs"
  shows "filter writes_store (handleFileUpload parse s files) =
         [SetUploadedRecords (\<lambda>prev. prev @ recs)]"
  using assms by (simp add: handleFileUpload_def)

lemma dispatch_store_prefix:
  "prefix (uploadedRecords (state app)) (uploadedRecords (state (dispatch parse ev app)))"
proof (cases ev)
  case (FileUpload files)
  show ?thesis
    unfolding FileUpload dispatch_FileUpload by (simp split: sum.split)
qed simp_all

lemma step_state:
  assumes "step P G parse ev app = Some app'"
  shows "settings (state app') = settings (state (dispatch parse ev app))"
    and "uploadedRecords (state app') = uploadedRecords (state (dispatch parse ev app))"
    and "selectedMonths (state app') = selectedMonths (state (dispatch parse ev app))"
    and "alerts app' = alerts (dispatch parse ev app)"
proof -
  from assms obtain app1 where r: "render P (dispatch parse ev app) = Some app1"
    and app': "app' = useEffect_fetchInsights G app1"
    by (auto simp: step_def)
  from r have "state app1 = state (dispatch parse ev app)" by (rule render_state)
  moreover from r have "alerts app1 = alerts (dispatch parse ev app)"
    by (simp add: render_others)
  ultimately show "settings (state app') = settings (state (dispatch parse ev app))"
    and "uploadedRecords (state app') = uploadedRecords (state (dispatch parse ev app))"
    and "selectedMonths (state app') = selectedMonths (state (dispatch parse ev app))"
    and "alerts app' = alerts (dispatch parse ev app)"
    by (simp_all add: app' useEffect_memos)
qed

lemma step_store_prefix:
  "step P G parse ev app = Some app' \<Longrightarrow>
   prefix (uploadedRecords (state app)) (uploadedRecords (state app'))"
  by (simp add: step_state(2) dispatch_store_prefix)

lemma run_store_prefix:
  "run P G parse evs app = Some app' \<Longrightarrow>
   prefix (uploadedRecords (state app)) (uploadedRecords (state app'))"
proof (induction evs arbitrary: app)
  case Nil
  then show ?case by simp
next
  case (Cons ev evs)
  from Cons.prems obtain app1 where s: "step P G parse ev app = Some app1"
    and r: "run P G parse evs app1 = Some app'"
    by (auto split: option.splits)
  from s have "prefix (uploadedRecords (state app)) (uploadedRecords (state app1))"
    by (rule step_store_prefix)
  also from r have "prefix (uploadedRecords (state app1)) (uploadedRecords (state app'))"
    by (rule Cons.IH)
  finally show ?case .
qed


section \<open>Sessions\<close>

lemma those_Some_iff: "those xs = Some ys \<longleftrightarrow> xs = map Some ys"
  by (induction xs arbitrary: ys) (auto split: option.splits)

lemma those_allProcessedData_defined:
  assumes "\<forall>rec s. P [rec] s \<noteq> []"
  shows "\<exists>recs. those (allProcessedData P s u) = Some recs"
proof -
  have "\<exists>r. index0 (P [rec] s) = Some r" for rec
    using assms by (cases "P [rec] s") (simp_all add: index0_def)
  then have "\<exists>recs. allProcessedData P s u = map Some recs"
    unfolding allProcessedData_def
  proof (induction u)
    case Nil
    show ?case by simp
  next
    case (Cons rec u)
    from Cons.prems obtain r where "index0 (P [rec] s) = Some r" by blast
    moreover from Cons.IH [OF Cons.prems] obtain recs
      where "map (\<lambda>rec. index0 (P [rec] s)) u = map Some recs" by blast
    ultimately have "map (\<lambda>rec. index0 (P [rec] s)) (rec # u) = map Some (r # recs)"
      by simp
    then show ?case by blast
  qed
  then show ?thesis by (simp add: those_Some_iff)
qed

lemma step_defined:
  assumes "\<forall>rec s. P [rec] s \<noteq> []" and "memos_sound P app"
  shows "\<exists>app'. step P G parse ev app = Some app'"
proof -
  let ?app1 = "dispatch parse ev app"
  from assms(2) have sound: "memos_sound P ?app1" by (simp add: dispatch_memos_sound)
  from those_allProcessedData_defined [OF assms(1)] obtain recs where
    "those (allProcessedData P (settings (state ?app1)) (uploadedRecords (state ?app1))) = Some recs"
    by blast
  with sound obtain app2 where "render P ?app1 = Some app2"
    using render_defined by blast
  then show ?thesis by (simp add: step_def)
qed

lemma run_defined:
  assumes P: "\<forall>rec s. P [rec] s \<noteq> []"
  shows "settled P app \<Longrightarrow> \<exists>app'. run P G parse evs app = Some app'"
proof (induction evs arbitrary: app)
  case Nil
  show ?case by simp
next
  case (Cons ev evs)
  from Cons.prems have sound: "memos_sound P app" by (rule settled_memos_sound)
  from step_defined [OF P sound] obtain app1 where s: "step P G parse ev app = Some app1"
    by blast
  from sound s have "settled P app1" by (rule step_settled)
  from Cons.IH [OF this] obtain app' where "run P G parse evs app1 = Some app'" by blast
  with s show ?case by simp
qed

lemma mount_defined: "\<exists>app. mount P G = Some app"
proof -
  have "those (allProcessedData P (settings (state initial_App))
          (uploadedRecords (state initial_App))) = Some []"
    by (simp add: initial_App_def initial_state_def allProcessedData_def)
  with memos_sound_initial obtain app1 where "render P initial_App = Some app1"
    using render_defined by blast
  then show ?thesis by (simp add: mount_def)
qed

lemma session_defined:
  assumes "\<forall>rec s. P [rec] s \<noteq> []"
  shows "\<exists>app. session P G parse evs = Some app"
proof -
  from mount_defined obtain app0 where m: "mount P G = Some app0" by blast
  then have "settled P app0" by (rule mount_settled)
  from run_defined [OF assms this] obtain app where "run P G parse evs app0 = Some app"
    by blast
  with m show ?thesis by (simp add: session_def)
qed

lemma settled_current:
  assumes "settled P app"
  shows "current_allProcessedData app =
           allProcessedData P (settings (state app)) (uploadedRecords (state app))"
    and "\<exists>recs. allProcessedData P (settings (state app)) (uploadedRecords (state app)) =
            map Some recs \<and>
          current_availableMonths app = availableMonths recs \<and>
          current_filteredData app = filteredData recs (selectedMonths (state app))"
    and "fetchInsights_deps app = Some (current_filteredData app)"
  using assms
  by (auto simp: settled_def rendered_def Let_def current_allProcessedData_def
      current_availableMonths_def current_filteredData_def those_Some_iff
      split: option.splits)





lemma render_useEffect_again:
  assumes "settled P app"
  shows "map_option (useEffect_fetchInsights G) (render P app) = Some app"
proof -
  from assms have "rendered P app"
    and d: "fetchInsights_deps app = Some (current_filteredData app)"
    by (simp_all add: settled_def)
  then have "render P app = Some app" by (simp add: render_again)
  moreover from d have "useEffect_fetchInsights G app = app"
    by (simp add: useEffect_fetchInsights_def)
  ultimately show ?thesis by simp
qed

text \<open>
  A processor that returns no record leaves \<^verbatim>\<open>undefined\<close> in \<open>allProcessedData\<close>, and the
  component fails on the first record uploaded.
\<close>

lemma session_fails_on_undefined:
  "session drop_all ids_of parse_result [FileUpload [Inr [record_of ''a'' ''05.03.24'']]] = None"
  by code_simp

section \<open>The effect and the calls of the processor\<close>





lemma memo_hit_deps: "memo_hit deps (Some (d, v)) \<longleftrightarrow> d = deps"
  by (simp add: memo_hit_def)

lemma render_calls:
  assumes "render P app = Some app'"
  shows "processRawData_calls app' =
         processRawData_calls app @
         (if memo_hit (settings (state app), uploadedRecords (state app))
               (allProcessedData_memo app) then []
          else map (\<lambda>rec. ([rec], settings (state app))) (uploadedRecords (state app)))"
  using assms by (auto simp: render_def Let_def split: option.splits)

lemma session_snoc_iff:
  "session P G parse (evs @ [ev]) = Some app' \<longleftrightarrow>
     (\<exists>app. session P G parse evs = Some app \<and> step P G parse ev app = Some app')"
  by (auto simp: session_append split: option.splits)

section \<open>What is displayed of the insight\<close>














section \<open>Claims about file upload and the record store\<close>

text \<open>
  C1, as the specification states it: for every upload batch of several documents in
  which the extraction of one document fails and that of the others succeeds, the
  record store after \<open>handleFileUpload\<close> holds the records of the documents that were
  extracted. The component does otherwise: of three documents of which the second
  fails, none reaches the store, which stays empty, and the message of the error is
  alerted.
\<close>

theorem upload_not_partial_counterexample:
  "map_option (uploadedRecords \<circ> state)
     (session classify ids_of parse_result
        [FileUpload [Inr [record_of ''a'' ''05.03.24''], Inl (ErrorObject ''unreadable''),
                     Inr [record_of ''c'' ''1.4.2024'']]]) = Some [] \<and>
   map_option alerts
     (session classify ids_of parse_result
        [FileUpload [Inr [record_of ''a'' ''05.03.24''], Inl (ErrorObject ''unreadable''),
                     Inr [record_of ''c'' ''1.4.2024'']]]) = Some [''unreadable'']"
  by code_simp

text \<open>
  C1, amended. When the extraction of a document of the batch fails, the record store
  after \<open>handleFileUpload\<close> is the store from before it, one more message has been
  alerted and \<open>isParsingPdf\<close> is false again; when every document is extracted, the
  records of all of them, in the order of the documents, are appended to the store
  and nothing is alerted.
\<close>

theorem upload_all_or_nothing:
  "((\<exists>f \<in> set files. isl (parse f (settings (state app)))) \<longrightarrow>
      uploadedRecords (state (dispatch parse (FileUpload files) app)) =
        uploadedRecords (state app) \<and>
      length (alerts (dispatch parse (FileUpload files) app)) = Suc (length (alerts app)) \<and>
      \<not> isParsingPdf (state (dispatch parse (FileUpload files) app))) \<and>
   (map (\<lambda>f. parse f (settings (state app))) files = map Inr rss \<longrightarrow>
      uploadedRecords (state (dispatch parse (FileUpload files) app)) =
        uploadedRecords (state app) @ concat rss \<and>
      alerts (dispatch parse (FileUpload files) app) = alerts app \<and>
      \<not> isParsingPdf (state (dispatch parse (FileUpload files) app)))"
proof (intro conjI impI)
  assume "\<exists>f \<in> set files. isl (parse f (settings (state app)))"
  then have "isl (extract_loop parse (settings (state app)) files [])"
    by (simp add: extract_loop_isl)
  then obtain error where e: "extract_loop parse (settings (state app)) files [] = Inl error"
    by (cases "extract_loop parse (settings (state app)) files []") auto
  note d = dispatch_FileUpload_failure [OF e]
  show "uploadedRecords (state (dispatch parse (FileUpload files) app)) =
        uploadedRecords (state app)"
    by (subst d) simp
  show "length (alerts (dispatch parse (FileUpload files) app)) = Suc (length (alerts app))"
    by (subst d) simp
  show "\<not> isParsingPdf (state (dispatch parse (FileUpload files) app))"
    by (subst d) simp
next
  assume "map (\<lambda>f. parse f (settings (state app))) files = map Inr rss"
  then have e: "extract_loop parse (settings (state app)) files [] = Inr ([] @ concat rss)"
    by (rule extract_loop_all)
  note d = dispatch_FileUpload_success [OF e]
  show "uploadedRecords (state (dispatch parse (FileUpload files) app)) =
        uploadedRecords (state app) @ concat rss"
    by (subst d) simp
  show "alerts (dispatch parse (FileUpload files) app) = alerts app"
    by (subst d) simp
  show "\<not> isParsingPdf (state (dispatch parse (FileUpload files) app))"
    by (subst d) simp
qed

theorem upload_all_or_nothing_witness:
  "uploadedRecords (state (dispatch parse_result
     (FileUpload [Inr [record_of ''a'' ''05.03.24''], Inl OtherValue,
                  Inr [record_of ''c'' ''1.4.2024'']])
     (initial_App\<lparr>state := initial_state\<lparr>uploadedRecords := [record_of ''z'' ''1.1.24'']\<rparr>\<rparr>))) =
     [record_of ''z'' ''1.1.24''] \<and>
   uploadedRecords (state (dispatch parse_result
     (FileUpload [Inr [record_of ''a'' ''05.03.24''], Inr [record_of ''c'' ''1.4.2024'']])
     (initial_App\<lparr>state := initial_state\<lparr>uploadedRecords := [record_of ''z'' ''1.1.24'']\<rparr>\<rparr>))) =
     [record_of ''z'' ''1.1.24'', record_of ''a'' ''05.03.24'', record_of ''c'' ''1.4.2024'']"
  using
    upload_all_or_nothing [of
      "[Inr [record_of ''a'' ''05.03.24''], Inl OtherValue, Inr [record_of ''c'' ''1.4.2024'']]"
      parse_result
      "initial_App\<lparr>state := initial_state\<lparr>uploadedRecords := [record_of ''z'' ''1.1.24'']\<rparr>\<rparr>"
      "[]"]
    upload_all_or_nothing [of
      "[Inr [record_of ''a'' ''05.03.24''], Inr [record_of ''c'' ''1.4.2024'']]"
      parse_result
      "initial_App\<lparr>state := initial_state\<lparr>uploadedRecords := [record_of ''z'' ''1.1.24'']\<rparr>\<rparr>"
      "[[record_of ''a'' ''05.03.24''], [record_of ''c'' ''1.4.2024'']]"]
  by (simp add: parse_result_def initial_App_def)

text \<open>
  C9. If the extraction call of a document throws during \<open>handleFileUpload\<close>, the
  record store is left as it was: the records extracted from the documents before it
  in the batch (\<open>rss\<close>) are not appended, \<^verbatim>\<open>setUploadedRecords\<close> is not called at all,
  and the run of the component function that follows does not change the store
  either.
\<close>

theorem failed_upload_leaves_store:
  assumes "map (\<lambda>f. parse f (settings (state app))) pre = map Inr rss"
    and "parse doc (settings (state app)) = Inl error"
  shows "filter writes_store
           (handleFileUpload parse (settings (state app)) (pre @ doc # post)) = [] \<and>
         uploadedRecords (state (dispatch parse (FileUpload (pre @ doc # post)) app)) =
           uploadedRecords (state app) \<and>
         (\<forall>app'. step P G parse (FileUpload (pre @ doc # post)) app = Some app' \<longrightarrow>
            uploadedRecords (state app') = uploadedRecords (state app))"
proof -
  from assms have e:
    "extract_loop parse (settings (state app)) (pre @ doc # post) [] = Inl error"
    by (rule extract_loop_first_failure)
  have w: "filter writes_store
           (handleFileUpload parse (settings (state app)) (pre @ doc # post)) = []"
    using e by (rule handleFileUpload_writes_failure)
  have d: "uploadedRecords (state (dispatch parse (FileUpload (pre @ doc # post)) app)) =
           uploadedRecords (state app)"
    by (subst dispatch_FileUpload_failure [OF e]) simp
  have "uploadedRecords (state app') = uploadedRecords (state app)"
    if "step P G parse (FileUpload (pre @ doc # post)) app = Some app'" for app'
    using step_state(2) [OF that] d by simp
  with w d show ?thesis by blast
qed

theorem failed_upload_leaves_store_witness:
  "filter writes_store
     (handleFileUpload parse_result initial_settings
        ([Inr [record_of ''a'' ''05.03.24'']] @ Inl (ErrorObject ''unreadable'') #
         [Inr [record_of ''c'' ''1.4.2024'']])) = [] \<and>
   uploadedRecords (state (dispatch parse_result
     (FileUpload ([Inr [record_of ''a'' ''05.03.24'']] @ Inl (ErrorObject ''unreadable'') #
                  [Inr [record_of ''c'' ''1.4.2024'']]))
     (initial_App\<lparr>state := initial_state\<lparr>uploadedRecords := [record_of ''z'' ''1.1.24'']\<rparr>\<rparr>))) =
     [record_of ''z'' ''1.1.24'']"
proof -
  let ?app = "initial_App\<lparr>state := initial_state\<lparr>uploadedRecords := [record_of ''z'' ''1.1.24'']\<rparr>\<rparr>"
  have s: "settings (state ?app) = initial_settings"
    by (simp add: initial_App_def initial_state_def)
  have a: "map (\<lambda>f. parse_result f (settings (state ?app))) [Inr [record_of ''a'' ''05.03.24'']] =
           map Inr [[record_of ''a'' ''05.03.24'']]"
    by (simp add: parse_result_def)
  have b: "parse_result (Inl (ErrorObject ''unreadable'')) (settings (state ?app)) =
           Inl (ErrorObject ''unreadable'')"
    by (simp add: parse_result_def)
  note th = failed_upload_leaves_store
    [where P = classify and G = ids_of and parse = parse_result and app = ?app
       and pre = "[Inr [record_of ''a'' ''05.03.24'']]"
       and rss = "[[record_of ''a'' ''05.03.24'']]"
       and doc = "Inl (ErrorObject ''unreadable'')" and error = "ErrorObject ''unreadable''"
       and post = "[Inr [record_of ''c'' ''1.4.2024'']]", OF a b]
  show ?thesis
    using th [THEN conjunct1] th [THEN conjunct2, THEN conjunct1] unfolding s
    by (simp add: initial_App_def)
qed

text \<open>
  C6. The record store is append-only within a session: an upload whose documents are
  all extracted calls \<^verbatim>\<open>setUploadedRecords\<close> exactly once, with the updater that appends
  the records of the whole batch to the store it is given, and the store after it is
  the store before it followed by those records; after every event, and after every
  sequence of events, the store from before is a prefix of the store: no record of it
  is removed, replaced or moved.
\<close>

theorem store_append_only:
  "(map (\<lambda>f. parse f (settings (state app))) files = map Inr rss \<longrightarrow>
      filter writes_store (handleFileUpload parse (settings (state app)) files) =
        [SetUploadedRecords (\<lambda>prev. prev @ concat rss)] \<and>
      uploadedRecords (state (dispatch parse (FileUpload files) app)) =
        uploadedRecords (state app) @ concat rss) \<and>
   (step P G parse ev app = Some app' \<longrightarrow>
      prefix (uploadedRecords (state app)) (uploadedRecords (state app'))) \<and>
   (run P G parse evs app = Some app'' \<longrightarrow>
      prefix (uploadedRecords (state app)) (uploadedRecords (state app'')))"
proof (intro conjI impI)
  assume "map (\<lambda>f. parse f (settings (state app))) files = map Inr rss"
  then have e: "extract_loop parse (settings (state app)) files [] = Inr ([] @ concat rss)"
    by (rule extract_loop_all)
  show "filter writes_store (handleFileUpload parse (settings (state app)) files) =
        [SetUploadedRecords (\<lambda>prev. prev @ concat rss)]"
    using handleFileUpload_writes_success [OF e] by simp
  show "uploadedRecords (state (dispatch parse (FileUpload files) app)) =
        uploadedRecords (state app) @ concat rss"
    by (subst dispatch_FileUpload_success [OF e]) simp
next
  assume "step P G parse ev app = Some app'"
  then show "prefix (uploadedRecords (state app)) (uploadedRecords (state app'))"
    by (rule step_store_prefix)
next
  assume "run P G parse evs app = Some app''"
  then show "prefix (uploadedRecords (state app)) (uploadedRecords (state app''))"
    by (rule run_store_prefix)
qed

theorem store_append_only_witness:
  "filter writes_store
     (handleFileUpload parse_result initial_settings
        [Inr [record_of ''a'' ''05.03.24''], Inr [record_of ''c'' ''1.4.2024'']]) =
     [SetUploadedRecords (\<lambda>prev. prev @ [record_of ''a'' ''05.03.24'', record_of ''c'' ''1.4.2024''])] \<and>
   uploadedRecords (state (dispatch parse_result
     (FileUpload [Inr [record_of ''a'' ''05.03.24''], Inr [record_of ''c'' ''1.4.2024'']])
     (initial_App\<lparr>state := initial_state\<lparr>uploadedRecords := [record_of ''z'' ''1.1.24'']\<rparr>\<rparr>))) =
     [record_of ''z'' ''1.1.24'', record_of ''a'' ''05.03.24'', record_of ''c'' ''1.4.2024''] \<and>
   (\<exists>app2.
      run classify ids_of parse_result
        [FileUpload [Inr [record_of ''a'' ''05.03.24'']], FileUpload [Inl OtherValue],
         SetSelectedMonths [''2024-03'']]
        (initial_App\<lparr>state := initial_state\<lparr>uploadedRecords := [record_of ''z'' ''1.1.24'']\<rparr>\<rparr>) =
        Some app2 \<and>
      prefix [record_of ''z'' ''1.1.24''] (uploadedRecords (state app2)))"
proof -
  let ?app = "initial_App\<lparr>state := initial_state\<lparr>uploadedRecords := [record_of ''z'' ''1.1.24'']\<rparr>\<rparr>"
  let ?files = "[Inr [record_of ''a'' ''05.03.24''], Inr [record_of ''c'' ''1.4.2024'']]"
  let ?evs = "[FileUpload [Inr [record_of ''a'' ''05.03.24'']], FileUpload [Inl OtherValue],
         SetSelectedMonths [''2024-03'']]"
  have s: "settings (state ?app) = initial_settings"
    by (simp add: initial_App_def initial_state_def)
  have u: "uploadedRecords (state ?app) = [record_of ''z'' ''1.1.24'']"
    by (simp add: initial_App_def)
  have a: "map (\<lambda>f. parse_result f (settings (state ?app))) ?files =
           map Inr [[record_of ''a'' ''05.03.24''], [record_of ''c'' ''1.4.2024'']]"
    by (simp add: parse_result_def)
  have "run classify ids_of parse_result ?evs ?app \<noteq> None"
    by code_simp
  then obtain app2 where r: "run classify ids_of parse_result ?evs ?app = Some app2"
    by blast
  note th = store_append_only
    [where P = classify and G = ids_of and parse = parse_result and app = ?app
       and files = ?files
       and rss = "[[record_of ''a'' ''05.03.24''], [record_of ''c'' ''1.4.2024'']]"
       and evs = ?evs and app'' = app2 and ev = "SetActiveTab ''data''" and app' = ?app]
  from th a have c1: "filter writes_store (handleFileUpload parse_result (settings (state ?app)) ?files) =
        [SetUploadedRecords (\<lambda>prev. prev @ concat [[record_of ''a'' ''05.03.24''], [record_of ''c'' ''1.4.2024'']])]"
    by blast
  from th a have c2: "uploadedRecords (state (dispatch parse_result (FileUpload ?files) ?app)) =
        uploadedRecords (state ?app) @ concat [[record_of ''a'' ''05.03.24''], [record_of ''c'' ''1.4.2024'']]"
    by blast
  from th r have c3: "prefix (uploadedRecords (state ?app)) (uploadedRecords (state app2))"
    by blast
  from c1 have f1: "filter writes_store (handleFileUpload parse_result initial_settings ?files) =
     [SetUploadedRecords (\<lambda>prev. prev @ [record_of ''a'' ''05.03.24'', record_of ''c'' ''1.4.2024''])]"
    unfolding s by simp
  from c2 have f2: "uploadedRecords (state (dispatch parse_result (FileUpload ?files) ?app)) =
     [record_of ''z'' ''1.1.24'', record_of ''a'' ''05.03.24'', record_of ''c'' ''1.4.2024'']"
    unfolding u by simp
  from c3 r have f3: "\<exists>app2. run classify ids_of parse_result ?evs ?app = Some app2 \<and>
      prefix [record_of ''z'' ''1.1.24''] (uploadedRecords (state app2))"
    unfolding u by blast
  from f1 f2 f3 show ?thesis by (intro conjI)
qed

section \<open>Claims about the derived values of the component\<close>

text \<open>
  C5. After any change to the settings or to the record store, that is, after every
  sequence of events of a session in which the component has not failed, the enriched
  records the component holds are those of applying \<open>processRawData\<close>, with the
  current settings, to every record of the store: no enriched record is one computed
  under other settings.
\<close>

theorem enriched_records_from_scratch:
  assumes "session P G parse evs = Some app"
  shows "current_allProcessedData app =
           map (\<lambda>rec. index0 (P [rec] (settings (state app)))) (uploadedRecords (state app))"
proof -
  from assms have "settled P app" by (rule session_settled)
  then have "current_allProcessedData app =
           allProcessedData P (settings (state app)) (uploadedRecords (state app))"
    by (rule settled_current)
  then show ?thesis by (simp add: allProcessedData_def)
qed

theorem enriched_records_from_scratch_witness:
  "\<exists>app.
     session classify ids_of parse_result
       [FileUpload [Inr [record_of ''a'' ''05.03.24'']],
        SetSettings (initial_settings\<lparr>tombakThreshold := Num 90\<rparr>)] = Some app \<and>
     settings (state app) = initial_settings\<lparr>tombakThreshold := Num 90\<rparr> \<and>
     uploadedRecords (state app) = [record_of ''a'' ''05.03.24''] \<and>
     current_allProcessedData app = [Some ((record_of ''a'' ''05.03.24'')\<lparr>material := Messing\<rparr>)]"
proof -
  let ?evs = "[FileUpload [Inr [record_of ''a'' ''05.03.24'']],
        SetSettings (initial_settings\<lparr>tombakThreshold := Num 90\<rparr>)]"
  have "session classify ids_of parse_result ?evs \<noteq> None"
    by code_simp
  then obtain app where s: "session classify ids_of parse_result ?evs = Some app"
    by blast
  have "map_option (settings \<circ> state) (session classify ids_of parse_result ?evs) =
        Some (initial_settings\<lparr>tombakThreshold := Num 90\<rparr>)"
    by code_simp
  with s have a: "settings (state app) = initial_settings\<lparr>tombakThreshold := Num 90\<rparr>"
    by simp
  have "map_option (uploadedRecords \<circ> state) (session classify ids_of parse_result ?evs) =
        Some [record_of ''a'' ''05.03.24'']"
    by code_simp
  with s have b: "uploadedRecords (state app) = [record_of ''a'' ''05.03.24'']"
    by simp
  have c: "index0 (classify [record_of ''a'' ''05.03.24'']
             (initial_settings\<lparr>tombakThreshold := Num 90\<rparr>)) =
           Some ((record_of ''a'' ''05.03.24'')\<lparr>material := Messing\<rparr>)"
    by code_simp
  from enriched_records_from_scratch [OF s]
  have "current_allProcessedData app =
        [Some ((record_of ''a'' ''05.03.24'')\<lparr>material := Messing\<rparr>)]"
    unfolding a b by (simp add: c)
  with s a b show ?thesis by blast
qed

text \<open>
  C4. \<open>availableMonths\<close> is always computed from the whole list of processed records,
  whatever months are selected: its members are the month keys derived from the
  processed records of the entire store, none stands twice, and the list is in
  descending lexicographic order.
\<close>

theorem available_months_of_whole_dataset:
  assumes "session P G parse evs = Some app"
  shows "\<exists>recs.
           map (\<lambda>rec. index0 (P [rec] (settings (state app)))) (uploadedRecords (state app)) =
             map Some recs \<and>
           current_availableMonths app = availableMonths recs \<and>
           set (current_availableMonths app) =
             {k. \<exists>rec \<in> set recs. monthKey (datum rec) = Some k} \<and>
           distinct (current_availableMonths app) \<and>
           sorted_wrt (\<lambda>a b. a \<ge> b) (current_availableMonths app)"
proof -
  from assms have "settled P app" by (rule session_settled)
  from settled_current(2) [OF this] obtain recs where
    r: "allProcessedData P (settings (state app)) (uploadedRecords (state app)) = map Some recs"
    and a: "current_availableMonths app = availableMonths recs"
    by blast
  from r have "map (\<lambda>rec. index0 (P [rec] (settings (state app)))) (uploadedRecords (state app)) =
             map Some recs"
    by (simp add: allProcessedData_def)
  then show ?thesis
    using a set_availableMonths [of recs] distinct_availableMonths [of recs]
      descending_availableMonths [of recs]
    by auto
qed

theorem available_months_of_whole_dataset_witness:
  "\<exists>app.
     session classify ids_of parse_result
       [FileUpload [Inr [record_of ''a'' ''05.03.24'', record_of ''b'' ''bad-date''],
                    Inr [record_of ''c'' ''1.4.2024'', record_of ''d'' ''07.03.2024'']],
        SetSelectedMonths [''2024-03'']] = Some app \<and>
     map id_field (current_filteredData app) = [''a'', ''d''] \<and>
     current_availableMonths app = [''2024-04'', ''2024-03''] \<and>
     distinct (current_availableMonths app) \<and>
     sorted_wrt (\<lambda>a b. a \<ge> b) (current_availableMonths app)"
proof -
  let ?evs = "[FileUpload [Inr [record_of ''a'' ''05.03.24'', record_of ''b'' ''bad-date''],
                    Inr [record_of ''c'' ''1.4.2024'', record_of ''d'' ''07.03.2024'']],
        SetSelectedMonths [''2024-03'']]"
  have "session classify ids_of parse_result ?evs \<noteq> None"
    by code_simp
  then obtain app where s: "session classify ids_of parse_result ?evs = Some app"
    by blast
  have "map_option (map id_field \<circ> current_filteredData)
          (session classify ids_of parse_result ?evs) = Some [''a'', ''d'']"
    by code_simp
  with s have f: "map id_field (current_filteredData app) = [''a'', ''d'']"
    by simp
  have "map_option current_availableMonths (session classify ids_of parse_result ?evs) =
        Some [''2024-04'', ''2024-03'']"
    by code_simp
  with s have m: "current_availableMonths app = [''2024-04'', ''2024-03'']"
    by simp
  from available_months_of_whole_dataset [OF s]
  have d: "distinct (current_availableMonths app) \<and>
        sorted_wrt (\<lambda>a b. a \<ge> b) (current_availableMonths app)"
    by clarsimp
  show ?thesis
    using s f m d by (intro exI [of _ app] conjI, simp_all)
qed




text \<open>
  C8, as the specification states it: an invalid configuration (a tolerance below
  zero, boundaries that do not ascend) is rejected where the settings are set and
  never reaches the processing of the records. The component does otherwise: a
  configuration with descending boundaries and the tolerance -1 becomes the
  settings, and \<open>processRawData\<close> is called with it.
\<close>

theorem invalid_settings_accepted_counterexample:
  "\<not> valid_settings
       (initial_settings\<lparr>tempBuckets := [Num 650, Num 570], tempTolerance := Num (- 1)\<rparr>) \<and>
   map_option (settings \<circ> state)
     (session classify ids_of parse_result
        [FileUpload [Inr [record_of ''a'' ''05.03.24'']],
         SetSettings
           (initial_settings\<lparr>tempBuckets := [Num 650, Num 570], tempTolerance := Num (- 1)\<rparr>)]) =
     Some (initial_settings\<lparr>tempBuckets := [Num 650, Num 570], tempTolerance := Num (- 1)\<rparr>) \<and>
   map_option processRawData_calls
     (session classify ids_of parse_result
        [FileUpload [Inr [record_of ''a'' ''05.03.24'']],
         SetSettings
           (initial_settings\<lparr>tempBuckets := [Num 650, Num 570], tempTolerance := Num (- 1)\<rparr>)]) =
     Some [([record_of ''a'' ''05.03.24''], initial_settings),
           ([record_of ''a'' ''05.03.24''],
            initial_settings\<lparr>tempBuckets := [Num 650, Num 570], tempTolerance := Num (- 1)\<rparr>)]"
  by code_simp

text \<open>
  C8, amended. The component checks no configuration: every value of \<open>AppSettings\<close>
  given to \<open>setSettings\<close> becomes the settings, the enriched records are computed
  anew with it, and when it differs from the settings before, \<open>processRawData\<close> is
  called with it for every record of the store. (A rounding mode that is not one of
  the two is excluded by the type \<open>RoundingMode\<close> alone.)
\<close>

theorem settings_reach_processRawData:
  assumes "session P G parse evs = Some app"
    and "step P G parse (SetSettings s) app = Some app'"
  shows "settings (state app') = s \<and>
         current_allProcessedData app' =
           map (\<lambda>rec. index0 (P [rec] s)) (uploadedRecords (state app)) \<and>
         (s \<noteq> settings (state app) \<longrightarrow>
            processRawData_calls app' =
              processRawData_calls app @ map (\<lambda>rec. ([rec], s)) (uploadedRecords (state app)))"
proof -
  from assms(1) have settled: "settled P app" by (rule session_settled)
  then have sound: "memos_sound P app" by (rule settled_memos_sound)
  from sound assms(2) have "settled P app'" by (rule step_settled)
  then have cur: "current_allProcessedData app' =
           allProcessedData P (settings (state app')) (uploadedRecords (state app'))"
    by (rule settled_current)
  have s': "settings (state app') = s"
    and u': "uploadedRecords (state app') = uploadedRecords (state app)"
    using step_state(1,2) [OF assms(2)] by simp_all
  from settled have memo: "allProcessedData_memo app =
      Some ((settings (state app), uploadedRecords (state app)),
            allProcessedData P (settings (state app)) (uploadedRecords (state app)))"
    by (auto simp: settled_def rendered_def Let_def split: option.splits)
  from assms(2) obtain app2 where r: "render P (dispatch parse (SetSettings s) app) = Some app2"
    and a: "app' = useEffect_fetchInsights G app2"
    by (auto simp: step_def)
  have calls: "processRawData_calls app' =
              processRawData_calls app @ map (\<lambda>rec. ([rec], s)) (uploadedRecords (state app))"
    if "s \<noteq> settings (state app)"
    using render_calls [OF r] that
    by (simp add: a useEffect_memos memo memo_hit_deps)
  from s' cur u' calls show ?thesis
    by (simp add: allProcessedData_def)
qed

theorem settings_reach_processRawData_witness:
  "\<exists>app app'.
     session classify ids_of parse_result [FileUpload [Inr [record_of ''a'' ''05.03.24'']]] =
       Some app \<and>
     step classify ids_of parse_result
       (SetSettings (initial_settings\<lparr>tombakThreshold := Num 90, tempTolerance := Num (- 1)\<rparr>))
       app = Some app' \<and>
     settings (state app') =
       initial_settings\<lparr>tombakThreshold := Num 90, tempTolerance := Num (- 1)\<rparr> \<and>
     current_allProcessedData app' = [Some ((record_of ''a'' ''05.03.24'')\<lparr>material := Messing\<rparr>)] \<and>
     processRawData_calls app' =
       processRawData_calls app @
       [([record_of ''a'' ''05.03.24''],
         initial_settings\<lparr>tombakThreshold := Num 90, tempTolerance := Num (- 1)\<rparr>)]"
proof -
  let ?evs = "[FileUpload [Inr [record_of ''a'' ''05.03.24'']]]"
  let ?s = "initial_settings\<lparr>tombakThreshold := Num 90, tempTolerance := Num (- 1)\<rparr>"
  have "session classify ids_of parse_result (?evs @ [SetSettings ?s]) \<noteq> None"
    by code_simp
  then obtain app' where
    "session classify ids_of parse_result (?evs @ [SetSettings ?s]) = Some app'"
    by blast
  then obtain app where s: "session classify ids_of parse_result ?evs = Some app"
    and t: "step classify ids_of parse_result (SetSettings ?s) app = Some app'"
    unfolding session_snoc_iff by blast
  have "map_option (uploadedRecords \<circ> state) (session classify ids_of parse_result ?evs) =
        Some [record_of ''a'' ''05.03.24'']"
    by code_simp
  with s have u: "uploadedRecords (state app) = [record_of ''a'' ''05.03.24'']" by simp
  have "map_option (settings \<circ> state) (session classify ids_of parse_result ?evs) =
        Some initial_settings"
    by code_simp
  with s have "settings (state app) = initial_settings" by simp
  then have ne: "?s \<noteq> settings (state app)"
    by (simp add: initial_settings_def)
  have c: "index0 (classify [record_of ''a'' ''05.03.24''] ?s) =
           Some ((record_of ''a'' ''05.03.24'')\<lparr>material := Messing\<rparr>)"
    by code_simp
  from settings_reach_processRawData [OF s t] ne
  have "settings (state app') = ?s \<and>
     current_allProcessedData app' = [Some ((record_of ''a'' ''05.03.24'')\<lparr>material := Messing\<rparr>)] \<and>
     processRawData_calls app' = processRawData_calls app @ [([record_of ''a'' ''05.03.24''], ?s)]"
    unfolding u by (simp add: c)
  with s t show ?thesis by (intro exI [of _ app] exI [of _ app']) simp
qed

end
